theory Spec2Isabelle
  imports Main
begin

section \<open>Schema model\<close>

text \<open>
  The schema types live in \<^verbatim>\<open>../types\<close>; the records below follow the way the components
  read them. A field value is \<^verbatim>\<open>string | string[] | boolean\<close>; a value that is
  \<^verbatim>\<open>undefined\<close> is a key absent from the value map. The plain objects used as
  dictionaries (\<^verbatim>\<open>FormValues\<close>, \<^verbatim>\<open>FormErrors\<close>) are maps from the field identifier
  to the own property stored under it.
  A \<^verbatim>\<open>string\<close> is a list of code units and \<^verbatim>\<open>.length\<close> is its length. The optional
  numbers \<^verbatim>\<open>minLength\<close> and \<^verbatim>\<open>maxLength\<close> are character counts, natural numbers.
\<close>

datatype fvalue = VStr string | VArr "string list" | VBool bool

type_synonym FormValues = "string \<rightharpoonup> fvalue"
type_synonym FormErrors = "string \<rightharpoonup> string"

record FieldOption =
  ovalue :: string
  olabel :: string

record ValidationRule =
  message :: string

record FormField =
  fieldId :: string
  label :: string
  ftype :: string
  required :: bool
  minLength :: "nat option"
  maxLength :: "nat option"
  options :: "FieldOption list option"
  validation :: "ValidationRule option"

record FormSection =
  sectionId :: string
  title :: string
  section_fields :: "FormField list"

record FormSchema =
  formTitle :: string
  sections :: "FormSection list"

record FormResponse =
  form :: FormSchema

section \<open>Decimal rendering of a number in a template literal\<close>

definition digit_char :: "nat \<Rightarrow> char" where
  "digit_char d =
     (if d = 0 then CHR ''0'' else if d = 1 then CHR ''1'' else if d = 2 then CHR ''2''
      else if d = 3 then CHR ''3'' else if d = 4 then CHR ''4'' else if d = 5 then CHR ''5''
      else if d = 6 then CHR ''6'' else if d = 7 then CHR ''7'' else if d = 8 then CHR ''8''
      else CHR ''9'')"

fun string_of_nat :: "nat \<Rightarrow> string" where
  "string_of_nat n =
     (if n < 10 then [digit_char n] else string_of_nat (n div 10) @ [digit_char (n mod 10)])"

declare string_of_nat.simps [simp del]

section \<open>Component state\<close>

text \<open>
  The \<^verbatim>\<open>useState\<close> cells of \<^verbatim>\<open>DynamicForm\<close> are one record, and every handler is a
  function from the state it closes over to the state after its updates. What a handler
  does besides updating state (network calls, console output, scrolling, the
  \<^verbatim>\<open>onLoginSuccess\<close> callback) is appended to \<open>effects\<close>. Reading a property of
  \<^verbatim>\<open>undefined\<close> raises a \<^verbatim>\<open>TypeError\<close>.
\<close>

record User =
  rollNumber :: string
  name :: string

datatype js_error = TypeError | NetworkError

datatype effect =
    CallGetForm string
  | CallCreateUser User
  | LoginSuccess User
  | ConsoleLog FormValues
  | ConsoleError
  | ScrollToTop

record form_state =
  formData :: "FormResponse option"
  isLoading :: bool
  error :: "string option"
  currentSectionIndex :: nat
  formValues :: FormValues
  formErrors :: FormErrors
  showSubmissionModal :: bool
  effects :: "effect list"

definition initial_state :: form_state where
  "initial_state =
     \<lparr>formData = None, isLoading = True, error = None, currentSectionIndex = 0,
      formValues = Map.empty, formErrors = Map.empty, showSubmissionModal = False,
      effects = []\<rparr>"

section \<open>Writing a property of a plain object\<close>

text \<open>
  \<^verbatim>\<open>FormValues\<close> and \<^verbatim>\<open>FormErrors\<close> are objects created by \<^verbatim>\<open>{}\<close>, and a map here holds the
  own properties of such an object. The assignment \<^verbatim>\<open>obj[key] = v\<close> stores an own
  property, except under the key \<^verbatim>\<open>__proto__\<close>: there the setter inherited from
  \<^verbatim>\<open>Object.prototype\<close> runs, which ignores a string or a boolean and takes an array as
  the new prototype of the object, and no own property is stored. An object literal with
  a spread and a computed key, \<^verbatim>\<open>{ ...prev, [key]: v }\<close>, defines the own property under
  every key, and \<^verbatim>\<open>delete\<close> removes it.
\<close>

definition assign :: "(string \<rightharpoonup> 'a) \<Rightarrow> string \<Rightarrow> 'a \<Rightarrow> (string \<rightharpoonup> 'a)" where
  "assign obj key v = (if key = ''__proto__'' then obj else obj(key \<mapsto> v))"

section \<open>Loading the schema and initialising the value map\<close>

definition initialValue :: "FormField \<Rightarrow> fvalue" where
  "initialValue field =
     (if ftype field = ''checkbox'' \<and> options field \<noteq> None then VArr []
      else if ftype field = ''checkbox'' \<and> options field = None then VBool False
      else VStr [])"

definition initialValues :: "FormResponse \<Rightarrow> FormValues" where
  "initialValues data =
     fold (\<lambda>section. fold (\<lambda>field vals. assign vals (fieldId field) (initialValue field))
                          (section_fields section))
          (sections (form data)) Map.empty"

text \<open>
  \<^verbatim>\<open>fetchFormData\<close>: \<open>reply\<close> is what \<^verbatim>\<open>await getForm(user.rollNumber)\<close> gives, a
  rejection or the parsed response.
\<close>

definition fetchFormData :: "string \<Rightarrow> js_error + FormResponse \<Rightarrow> form_state \<Rightarrow> form_state" where
  "fetchFormData roll reply st =
     (let st1 = st\<lparr>isLoading := True, effects := effects st @ [CallGetForm roll]\<rparr> in
      case reply of
        Inr data \<Rightarrow>
          st1\<lparr>formData := Some data, formValues := initialValues data, isLoading := False\<rparr>
      | Inl e \<Rightarrow>
          st1\<lparr>error := Some ''Failed to load the form. Please try again later.'',
              effects := effects st1 @ [ConsoleError], isLoading := False\<rparr>)"

section \<open>Editing a field\<close>

definition handleFieldChange :: "string \<Rightarrow> fvalue \<Rightarrow> form_state \<Rightarrow> form_state" where
  "handleFieldChange fid v st =
     (let st1 = st\<lparr>formValues := (formValues st)(fid \<mapsto> v)\<rparr> in
      case formErrors st fid of
        None \<Rightarrow> st1
      | Some msg \<Rightarrow>
          if msg \<noteq> [] then st1\<lparr>formErrors := (formErrors st1)(fid := None)\<rparr> else st1)"

section \<open>The per-field rule\<close>

text \<open>
  \<^verbatim>\<open>validateField\<close> of DynamicForm.tsx. The guards \<^verbatim>\<open>field.minLength && ...\<close>,
  \<^verbatim>\<open>field.maxLength && ...\<close> and \<^verbatim>\<open>field.validation?.message || ...\<close> test
  truthiness: a bound of 0 and an empty message count as not given.
\<close>

definition is_missing :: "fvalue option \<Rightarrow> bool" where
  "is_missing v = (v = None \<or> v = Some (VStr []) \<or> v = Some (VArr []))"

definition required_message :: "FormField \<Rightarrow> string" where
  "required_message field =
     (case validation field of
        None \<Rightarrow> ''This field is required''
      | Some r \<Rightarrow> if message r \<noteq> [] then message r else ''This field is required'')"

fun too_short :: "nat option \<Rightarrow> fvalue option \<Rightarrow> nat option" where
  "too_short (Some n) (Some (VStr s)) = (if n \<noteq> 0 \<and> length s < n then Some n else None)"
| "too_short _ _ = None"

fun too_long :: "nat option \<Rightarrow> fvalue option \<Rightarrow> nat option" where
  "too_long (Some n) (Some (VStr s)) = (if n \<noteq> 0 \<and> length s > n then Some n else None)"
| "too_long _ _ = None"

definition validateField :: "form_state \<Rightarrow> FormField \<Rightarrow> string" where
  "validateField st field =
     (let v = formValues st (fieldId field) in
      if required field \<and> is_missing v then required_message field
      else if v = None \<or> v = Some (VStr []) then []
      else
        (case too_short (minLength field) v of
           Some n \<Rightarrow> ''Minimum length is '' @ string_of_nat n @ '' characters''
         | None \<Rightarrow>
             (case too_long (maxLength field) v of
                Some n \<Rightarrow> ''Maximum length is '' @ string_of_nat n @ '' characters''
              | None \<Rightarrow> [])))"

section \<open>Section validation and navigation\<close>

definition validate_step :: "form_state \<Rightarrow> FormField \<Rightarrow> bool \<times> FormErrors \<Rightarrow> bool \<times> FormErrors" where
  "validate_step st field acc =
     (let errorMessage = validateField st field in
      if errorMessage \<noteq> []
      then (False, assign (snd acc) (fieldId field) errorMessage) else acc)"

definition validateSection :: "form_state \<Rightarrow> nat \<Rightarrow> js_error + bool \<times> form_state" where
  "validateSection st sectionIndex =
     (case formData st of
        None \<Rightarrow> Inr (False, st)
      | Some data \<Rightarrow>
          if sectionIndex < length (sections (form data)) then
            (let section = sections (form data) ! sectionIndex;
                 res = fold (validate_step st) (section_fields section) (True, Map.empty)
             in Inr (fst res, st\<lparr>formErrors := snd res\<rparr>))
          else Inl TypeError)"

definition handlePrevious :: "form_state \<Rightarrow> form_state" where
  "handlePrevious st =
     (if currentSectionIndex st > 0
      then st\<lparr>currentSectionIndex := currentSectionIndex st - 1\<rparr> else st)"

definition handleNext :: "form_state \<Rightarrow> js_error + form_state" where
  "handleNext st =
     (case formData st of
        None \<Rightarrow> Inr st
      | Some data \<Rightarrow>
          (case validateSection st (currentSectionIndex st) of
             Inl e \<Rightarrow> Inl e
           | Inr (isValid, st1) \<Rightarrow>
               if isValid \<and> int (currentSectionIndex st) < int (length (sections (form data))) - 1
               then Inr (st1\<lparr>currentSectionIndex := currentSectionIndex st + 1,
                              effects := effects st1 @ [ScrollToTop]\<rparr>)
               else Inr st1))"

definition handleSubmit :: "form_state \<Rightarrow> js_error + form_state" where
  "handleSubmit st =
     (case formData st of
        None \<Rightarrow> Inr st
      | Some data \<Rightarrow>
          (case validateSection st (currentSectionIndex st) of
             Inl e \<Rightarrow> Inl e
           | Inr (isValid, st1) \<Rightarrow>
               if isValid
               then Inr (st1\<lparr>showSubmissionModal := True,
                              effects := effects st1 @ [ConsoleLog (formValues st)]\<rparr>)
               else Inr st1))"

section \<open>The section controller's buttons\<close>

text \<open>
  \<^verbatim>\<open>FormSection\<close> renders \<^verbatim>\<open>Previous\<close> with \<^verbatim>\<open>disabled={currentIndex === 0}\<close> and
  \<^verbatim>\<open>Submit\<close> in place of \<^verbatim>\<open>Next\<close> when \<^verbatim>\<open>isLast\<close>. A disabled button delivers no click.
\<close>

definition previous_disabled :: "nat \<Rightarrow> bool" where
  "previous_disabled currentIndex = (currentIndex = 0)"

definition isLast :: "form_state \<Rightarrow> FormResponse \<Rightarrow> bool" where
  "isLast st data = (int (currentSectionIndex st) = int (length (sections (form data))) - 1)"

definition click_previous :: "form_state \<Rightarrow> form_state" where
  "click_previous st =
     (if previous_disabled (currentSectionIndex st) then st else handlePrevious st)"

section \<open>The summary view\<close>

fun join :: "string \<Rightarrow> string list \<Rightarrow> string" where
  "join sep [] = []"
| "join sep [x] = x"
| "join sep (x # y # ys) = x @ sep @ join sep (y # ys)"

definition formatValue :: "fvalue option \<Rightarrow> string" where
  "formatValue v =
     (case v of
        Some (VArr xs) \<Rightarrow> join '', '' xs
      | Some (VBool b) \<Rightarrow> if b then ''Yes'' else ''No''
      | Some (VStr s) \<Rightarrow> if s \<noteq> [] then s else ''-''
      | None \<Rightarrow> ''-'')"

definition renderSubmissionModal :: "form_state \<Rightarrow> (string \<times> (string \<times> string) list) list option" where
  "renderSubmissionModal st =
     (case formData st of
        None \<Rightarrow> None
      | Some data \<Rightarrow>
          Some (map (\<lambda>section.
                  (title section,
                   map (\<lambda>field. (label field, formatValue (formValues st (fieldId field))))
                       (section_fields section)))
                (sections (form data))))"

definition summary_view :: "form_state \<Rightarrow> (string \<times> (string \<times> string) list) list option" where
  "summary_view st = (if showSubmissionModal st then renderSubmissionModal st else None)"

section \<open>The multi-option checkbox\<close>

text \<open>
  \<^verbatim>\<open>handleCheckboxGroupChange\<close> of DynamicField.tsx, on the value the field holds: the
  sequence of selected option values, \<open>None\<close> for a falsy value (\<^verbatim>\<open>|| []\<close>). It returns
  the sequence handed to \<^verbatim>\<open>onChange\<close>.
\<close>

definition handleCheckboxGroupChange :: "string list option \<Rightarrow> string \<Rightarrow> string list" where
  "handleCheckboxGroupChange v optionValue =
     (let currentValues = (case v of Some xs \<Rightarrow> xs | None \<Rightarrow> []) in
      if optionValue \<in> set currentValues
      then filter (\<lambda>x. x \<noteq> optionValue) currentValues
      else currentValues @ [optionValue])"

section \<open>The login form\<close>

text \<open>
  \<^verbatim>\<open>String.prototype.trim\<close> strips white space and line terminators from both ends; of
  the code units below 256 these are the seven listed.
\<close>

definition is_whitespace :: "char \<Rightarrow> bool" where
  "is_whitespace c =
     (c \<in> set [CHR 0x09, CHR 0x0A, CHR 0x0B, CHR 0x0C, CHR 0x0D, CHR 0x20, CHR 0xA0])"

definition trim :: "string \<Rightarrow> string" where
  "trim s = rev (dropWhile is_whitespace (rev (dropWhile is_whitespace s)))"

record create_result =
  success :: bool
  result_message :: string

record login_state =
  user :: User
  login_isLoading :: bool
  login_error :: "string option"
  login_effects :: "effect list"

text \<open>
  \<^verbatim>\<open>handleSubmit\<close> of the login form: \<open>reply\<close> is what \<^verbatim>\<open>await createUser(user)\<close>
  gives if the call is made.
\<close>

definition login_handleSubmit :: "js_error + create_result \<Rightarrow> login_state \<Rightarrow> login_state" where
  "login_handleSubmit reply st =
     (let st0 = st\<lparr>login_error := None\<rparr> in
      if trim (rollNumber (user st)) = [] \<or> trim (name (user st)) = []
      then st0\<lparr>login_error := Some ''Both Roll Number and Name are required''\<rparr>
      else
        (let st1 = st0\<lparr>login_isLoading := True,
                       login_effects := login_effects st0 @ [CallCreateUser (user st)]\<rparr> in
         case reply of
           Inr result \<Rightarrow>
             if success result
             then st1\<lparr>login_effects := login_effects st1 @ [LoginSuccess (user st)],
                      login_isLoading := False\<rparr>
             else st1\<lparr>login_error := Some (result_message result), login_isLoading := False\<rparr>
         | Inl e \<Rightarrow>
             st1\<lparr>login_error := Some ''An error occurred during login. Please try again.'',
                 login_isLoading := False\<rparr>))"

section \<open>Notions used to state the properties\<close>

text \<open>
  The error map that one run of the loop in \<^verbatim>\<open>validateSection\<close> builds for a list of fields,
  the fields of a schema in schema order, one step of the initialisation loop, and a
  string that is blank after trimming.
\<close>

definition section_errors :: "form_state \<Rightarrow> FormField list \<Rightarrow> FormErrors" where
  "section_errors st fs = snd (fold (validate_step st) fs (True, Map.empty))"

definition all_fields :: "FormResponse \<Rightarrow> FormField list" where
  "all_fields data = concat (map section_fields (sections (form data)))"

definition init_step :: "FormField \<Rightarrow> FormValues \<Rightarrow> FormValues" where
  "init_step field vals = assign vals (fieldId field) (initialValue field)"

definition blank :: "string \<Rightarrow> bool" where
  "blank s = (trim s = [])"

definition summary_of :: "FormResponse \<Rightarrow> FormValues \<Rightarrow> (string \<times> (string \<times> string) list) list" where
  "summary_of data vals =
     map (\<lambda>section.
            (title section,
             map (\<lambda>field. (label field, formatValue (vals (fieldId field))))
                 (section_fields section)))
         (sections (form data))"

definition double_toggle :: "string list \<Rightarrow> string \<Rightarrow> string list" where
  "double_toggle xs v =
     handleCheckboxGroupChange (Some (handleCheckboxGroupChange (Some xs) v)) v"

text \<open>
  The states the form component can be in: the state it mounts with, the state after the
  schema request has settled, and every state a handler produces from one of these.
  In all of them the messages of the error map are non-empty, since
  \<^verbatim>\<open>validateSection\<close> is the only writer and stores truthy messages only.
\<close>

inductive reachable :: "form_state \<Rightarrow> bool" where
  mounted: "reachable initial_state"
| loaded: "reachable (fetchFormData roll reply initial_state)"
| edited: "reachable st \<Longrightarrow> reachable (handleFieldChange fid v st)"
| went_back: "reachable st \<Longrightarrow> reachable (handlePrevious st)"
| went_on: "reachable st \<Longrightarrow> handleNext st = Inr st' \<Longrightarrow> reachable st'"
| submitted: "reachable st \<Longrightarrow> handleSubmit st = Inr st' \<Longrightarrow> reachable st'"
| closed: "reachable st \<Longrightarrow> reachable (st\<lparr>showSubmissionModal := False\<rparr>)"

definition errors_nonempty :: "FormErrors \<Rightarrow> bool" where
  "errors_nonempty errs = (\<forall>k m. errs k = Some m \<longrightarrow> m \<noteq> [])"

section \<open>A two-section schema\<close>

text \<open>
  Section one holds a required text field \<^verbatim>\<open>name\<close> of two to five characters and an
  optional field \<^verbatim>\<open>nick\<close> whose bound and custom message are falsy; section two holds
  a required group of checkboxes and a required single checkbox.
\<close>

definition ex_name :: FormField where
  "ex_name = \<lparr>fieldId = ''name'', label = ''Name'', ftype = ''text'', required = True,
               minLength = Some 2, maxLength = Some 5, options = None, validation = None\<rparr>"

definition ex_nick :: FormField where
  "ex_nick = \<lparr>fieldId = ''nick'', label = ''Nickname'', ftype = ''text'', required = False,
               minLength = None, maxLength = Some 0, options = None,
               validation = Some \<lparr>message = []\<rparr>\<rparr>"

definition ex_hobbies :: FormField where
  "ex_hobbies = \<lparr>fieldId = ''hobbies'', label = ''Hobbies'', ftype = ''checkbox'', required = True,
               minLength = None, maxLength = None,
               options = Some [\<lparr>ovalue = ''a'', olabel = ''A''\<rparr>, \<lparr>ovalue = ''b'', olabel = ''B''\<rparr>],
               validation = Some \<lparr>message = ''Pick one''\<rparr>\<rparr>"

definition ex_agree :: FormField where
  "ex_agree = \<lparr>fieldId = ''agree'', label = ''I agree'', ftype = ''checkbox'', required = True,
               minLength = None, maxLength = None, options = None, validation = None\<rparr>"

definition ex_schema :: FormResponse where
  "ex_schema = \<lparr>form = \<lparr>formTitle = ''Profile'', sections =
      [\<lparr>sectionId = ''s1'', title = ''About'', section_fields = [ex_name, ex_nick]\<rparr>,
       \<lparr>sectionId = ''s2'', title = ''More'', section_fields = [ex_hobbies, ex_agree]\<rparr>]\<rparr>\<rparr>"

definition ex_state :: "FormValues \<Rightarrow> FormErrors \<Rightarrow> nat \<Rightarrow> form_state" where
  "ex_state vals errs i =
     \<lparr>formData = Some ex_schema, isLoading = False, error = None, currentSectionIndex = i,
      formValues = vals, formErrors = errs, showSubmissionModal = False, effects = []\<rparr>"

definition ex_filled :: FormValues where
  "ex_filled = [''name'' \<mapsto> VStr ''Al'', ''nick'' \<mapsto> VStr [],
                ''hobbies'' \<mapsto> VArr [''a'', ''b''], ''agree'' \<mapsto> VBool False]"

definition ex_loaded :: form_state where
  "ex_loaded = fetchFormData ''R1'' (Inr ex_schema) initial_state"

definition ex_failed :: form_state where
  "ex_failed = ex_loaded\<lparr>formErrors := [''name'' \<mapsto> ''This field is required'']\<rparr>"

text \<open>
  A schema whose first section holds a required text field named \<^verbatim>\<open>__proto__\<close>, the
  state after it has loaded, and the state after the user has typed into that field and
  cleared it again, so that the value map has the own property \<^verbatim>\<open>__proto__\<close> with the
  empty string.
\<close>

definition ex_proto :: FormField where
  "ex_proto = \<lparr>fieldId = ''__proto__'', label = ''Proto'', ftype = ''text'', required = True,
               minLength = None, maxLength = None, options = None, validation = None\<rparr>"

definition ex_proto_schema :: FormResponse where
  "ex_proto_schema = \<lparr>form = \<lparr>formTitle = ''Profile'', sections =
      [\<lparr>sectionId = ''s1'', title = ''About'', section_fields = [ex_proto]\<rparr>,
       \<lparr>sectionId = ''s2'', title = ''More'', section_fields = [ex_agree]\<rparr>]\<rparr>\<rparr>"



text \<open>
  A one-section schema with an optional group of checkboxes, loaded and submitted with
  nothing selected.
\<close>

definition ex_tags :: FormField where
  "ex_tags = \<lparr>fieldId = ''tags'', label = ''Tags'', ftype = ''checkbox'', required = False,
               minLength = None, maxLength = None,
               options = Some [\<lparr>ovalue = ''x'', olabel = ''X''\<rparr>], validation = None\<rparr>"

definition ex_tags_schema :: FormResponse where
  "ex_tags_schema = \<lparr>form = \<lparr>formTitle = ''Extras'', sections =
      [\<lparr>sectionId = ''s1'', title = ''Extras'', section_fields = [ex_tags]\<rparr>]\<rparr>\<rparr>"

definition ex_tags_loaded :: form_state where
  "ex_tags_loaded = fetchFormData ''R1'' (Inr ex_tags_schema) initial_state"

definition ex_tags_submitted :: form_state where
  "ex_tags_submitted =
     ex_tags_loaded\<lparr>showSubmissionModal := True,
                    effects := effects ex_tags_loaded @ [ConsoleLog (formValues ex_tags_loaded)]\<rparr>"

lemmas ex_defs = ex_name_def ex_hobbies_def ex_agree_def ex_nick_def ex_schema_def ex_state_def

section \<open>The loop of section validation\<close>

lemma validate_step_snd:
  "snd (validate_step st g acc) k =
     (if validateField st g \<noteq> [] \<and> fieldId g = k \<and> k \<noteq> ''__proto__''
      then Some (validateField st g) else snd acc k)"
  by (simp add: validate_step_def Let_def assign_def)

lemma validate_step_fst:
  "fst (validate_step st g acc) = (fst acc \<and> validateField st g = [])"
  by (simp add: validate_step_def Let_def)

lemma validate_fold_fst:
  "fst (fold (validate_step st) fs acc) = (fst acc \<and> (\<forall>f\<in>set fs. validateField st f = []))"
  by (induction fs arbitrary: acc) (auto simp: validate_step_fst)

lemma validate_fold_dom:
  "dom (snd (fold (validate_step st) fs acc)) =
     dom (snd acc) \<union>
     {fieldId f |f. f \<in> set fs \<and> validateField st f \<noteq> [] \<and> fieldId f \<noteq> ''__proto__''}"
proof (induction fs arbitrary: acc)
  case Nil
  show ?case by simp
next
  case (Cons g fs)
  have "dom (snd (validate_step st g acc)) =
      dom (snd acc) \<union>
      (if validateField st g \<noteq> [] \<and> fieldId g \<noteq> ''__proto__'' then {fieldId g} else {})"
    by (auto simp: validate_step_snd domIff split: if_splits)
  then show ?case by (auto simp: Cons.IH)
qed

lemma validate_fold_entry:
  "snd (fold (validate_step st) fs acc) k = Some m \<Longrightarrow>
     snd acc k = Some m \<or> (\<exists>f\<in>set fs. fieldId f = k \<and> validateField st f = m \<and> m \<noteq> [])"
proof (induction fs arbitrary: acc)
  case Nil
  then show ?case by simp
next
  case (Cons f fs)
  from Cons.IH [OF Cons.prems [simplified]]
  show ?case by (auto simp: validate_step_snd split: if_splits)
qed

lemma validate_fold_other:
  "k \<notin> fieldId ` set fs \<Longrightarrow> snd (fold (validate_step st) fs acc) k = snd acc k"
proof (induction fs arbitrary: acc)
  case Nil
  show ?case by simp
next
  case (Cons g fs)
  then have "snd (fold (validate_step st) fs (validate_step st g acc)) k
      = snd (validate_step st g acc) k"
    by simp
  moreover from Cons.prems have "snd (validate_step st g acc) k = snd acc k"
    by (auto simp: validate_step_snd)
  ultimately show ?case by simp
qed

lemma validate_fold_proto: "snd (fold (validate_step st) fs acc) ''__proto__'' = snd acc ''__proto__''"
proof (induction fs arbitrary: acc)
  case Nil
  show ?case by simp
next
  case (Cons g fs)
  have "snd (fold (validate_step st) fs (validate_step st g acc)) ''__proto__''
      = snd (validate_step st g acc) ''__proto__''"
    by (rule Cons.IH)
  moreover have "snd (validate_step st g acc) ''__proto__'' = snd acc ''__proto__''"
    by (simp add: validate_step_snd)
  ultimately show ?case by simp
qed

lemma validate_fold_distinct:
  "distinct (map fieldId fs) \<Longrightarrow> f \<in> set fs \<Longrightarrow> fieldId f \<noteq> ''__proto__'' \<Longrightarrow>
     snd (fold (validate_step st) fs acc) (fieldId f) =
       (if validateField st f = [] then snd acc (fieldId f) else Some (validateField st f))"
proof (induction fs arbitrary: acc)
  case Nil
  then show ?case by simp
next
  case (Cons g fs)
  show ?case
  proof (cases "f = g")
    case True
    with Cons.prems have "fieldId f \<notin> fieldId ` set fs" by auto
    then have "snd (fold (validate_step st) fs (validate_step st g acc)) (fieldId f)
                 = snd (validate_step st g acc) (fieldId f)"
      by (rule validate_fold_other)
    with True Cons.prems(3) show ?thesis by (simp add: validate_step_snd)
  next
    case False
    with Cons.prems have "f \<in> set fs" "distinct (map fieldId fs)" "fieldId g \<noteq> fieldId f"
      by auto
    with Cons.IH [of "validate_step st g acc"] Cons.prems(3) show ?thesis
      by (simp add: validate_step_snd)
  qed
qed

lemma validate_fold_values_only:
  "formValues st' = formValues st \<Longrightarrow> fold (validate_step st') fs acc = fold (validate_step st) fs acc"
  by (induction fs arbitrary: acc) (auto simp: validate_step_def validateField_def Let_def)

lemma validate_fold_nonempty:
  "errors_nonempty (snd acc) \<Longrightarrow> errors_nonempty (snd (fold (validate_step st) fs acc))"
proof (induction fs arbitrary: acc)
  case Nil
  then show ?case by simp
next
  case (Cons f fs)
  from Cons.prems have "errors_nonempty (snd (validate_step st f acc))"
    by (auto simp: errors_nonempty_def validate_step_snd split: if_splits)
  then show ?case by (simp add: Cons.IH)
qed

lemma section_errors_values_only:
  "formValues st' = formValues st \<Longrightarrow> section_errors st' fs = section_errors st fs"
  unfolding section_errors_def by (rule arg_cong [where f = snd], rule validate_fold_values_only)

lemma section_errors_all_valid:
  assumes "\<forall>f\<in>set fs. validateField st f = []"
  shows "section_errors st fs = Map.empty"
proof -
  from assms have "dom (section_errors st fs) = {}"
    unfolding section_errors_def validate_fold_dom by auto
  then show ?thesis by simp
qed

lemma section_errors_empty_iff:
  assumes "''__proto__'' \<notin> fieldId ` set fs"
  shows "(section_errors st fs = Map.empty) = (\<forall>f\<in>set fs. validateField st f = [])"
proof -
  have "(section_errors st fs = Map.empty) = (dom (section_errors st fs) = {})"
    by simp
  also have "\<dots> = (\<forall>f\<in>set fs. validateField st f = [] \<or> fieldId f = ''__proto__'')"
    unfolding section_errors_def validate_fold_dom by auto
  also have "\<dots> = (\<forall>f\<in>set fs. validateField st f = [])"
  proof -
    from assms have "\<forall>f\<in>set fs. fieldId f \<noteq> ''__proto__''" by (auto simp: image_iff)
    then show ?thesis by blast
  qed
  finally show ?thesis .
qed

lemma section_errors_failing:
  assumes "f \<in> set fs" and "validateField st f \<noteq> []" and "fieldId f \<noteq> ''__proto__''"
  shows "\<exists>m. section_errors st fs (fieldId f) = Some m \<and> m \<noteq> []"
proof -
  from assms have "fieldId f \<in> dom (section_errors st fs)"
    unfolding section_errors_def validate_fold_dom by auto
  then obtain m where m: "section_errors st fs (fieldId f) = Some m" by auto
  have "errors_nonempty (section_errors st fs)"
    unfolding section_errors_def
    by (rule validate_fold_nonempty) (simp add: errors_nonempty_def)
  with m show ?thesis by (auto simp: errors_nonempty_def)
qed

lemma validateSection_eq:
  assumes "formData st = Some data" and "i < length (sections (form data))"
  shows "validateSection st i =
           Inr (\<forall>f\<in>set (section_fields (sections (form data) ! i)). validateField st f = [],
                st\<lparr>formErrors := section_errors st (section_fields (sections (form data) ! i))\<rparr>)"
  using assms by (simp add: validateSection_def Let_def section_errors_def validate_fold_fst)

section \<open>The error map holds non-empty messages in every reachable state\<close>

lemma validateSection_nonempty:
  assumes "validateSection st i = Inr (ok, st')" and "errors_nonempty (formErrors st)"
  shows "errors_nonempty (formErrors st')"
proof (cases "formData st")
  case None
  with assms show ?thesis by (simp add: validateSection_def)
next
  case (Some data)
  have "errors_nonempty (snd (fold (validate_step st) fs (True, Map.empty)))" for fs
    by (rule validate_fold_nonempty) (simp add: errors_nonempty_def)
  with assms Some show ?thesis
    by (auto simp: validateSection_def Let_def split: if_splits)
qed

lemma handleNext_nonempty:
  assumes "handleNext st = Inr st'" and "errors_nonempty (formErrors st)"
  shows "errors_nonempty (formErrors st')"
proof (cases "formData st")
  case None
  with assms show ?thesis by (simp add: handleNext_def)
next
  case (Some data)
  with assms(1) obtain ok st1 where v: "validateSection st (currentSectionIndex st) = Inr (ok, st1)"
    and "formErrors st' = formErrors st1"
    by (auto simp: handleNext_def split: sum.splits if_splits)
  with validateSection_nonempty [OF v assms(2)] show ?thesis by simp
qed

lemma handleSubmit_nonempty:
  assumes "handleSubmit st = Inr st'" and "errors_nonempty (formErrors st)"
  shows "errors_nonempty (formErrors st')"
proof (cases "formData st")
  case None
  with assms show ?thesis by (simp add: handleSubmit_def)
next
  case (Some data)
  with assms(1) obtain ok st1 where v: "validateSection st (currentSectionIndex st) = Inr (ok, st1)"
    and "formErrors st' = formErrors st1"
    by (auto simp: handleSubmit_def split: sum.splits if_splits)
  with validateSection_nonempty [OF v assms(2)] show ?thesis by simp
qed

lemma reachable_errors_nonempty: "reachable st \<Longrightarrow> errors_nonempty (formErrors st)"
proof (induction rule: reachable.induct)
  case mounted
  show ?case by (simp add: initial_state_def errors_nonempty_def)
next
  case (loaded roll reply)
  show ?case
    by (cases reply) (simp_all add: fetchFormData_def initial_state_def errors_nonempty_def)
next
  case (edited st fid v)
  then show ?case
    by (auto simp: handleFieldChange_def Let_def errors_nonempty_def split: option.splits if_splits)
next
  case (went_back st)
  then show ?case by (simp add: handlePrevious_def)
next
  case (went_on st st')
  then show ?case by (auto intro: handleNext_nonempty)
next
  case (submitted st st')
  then show ?case by (auto intro: handleSubmit_nonempty)
next
  case (closed st)
  then show ?case by simp
qed

section \<open>The initialisation loop\<close>

lemma fold_over_concat: "fold f (concat xss) = fold (fold f) xss"
  by (induction xss) simp_all

lemma initialValues_all_fields:
  "initialValues data = fold init_step (all_fields data) Map.empty"
proof -
  have "(\<lambda>field vals. assign vals (fieldId field) (initialValue field)) = init_step"
    by (simp add: init_step_def fun_eq_iff)
  then show ?thesis
    by (simp add: initialValues_def all_fields_def fold_over_concat fold_map comp_def)
qed

lemma init_step_apply:
  "init_step g m k =
     (if k = fieldId g \<and> k \<noteq> ''__proto__'' then Some (initialValue g) else m k)"
  by (simp add: init_step_def assign_def)

lemma init_fold_dom:
  "dom (fold init_step fs m) = dom m \<union> (fieldId ` set fs - {''__proto__''})"
proof (induction fs arbitrary: m)
  case Nil
  show ?case by simp
next
  case (Cons g fs)
  have "dom (init_step g m) = dom m \<union> ({fieldId g} - {''__proto__''})"
    by (auto simp: init_step_apply domIff split: if_splits)
  then show ?case by (auto simp: Cons.IH)
qed

lemma init_fold_entry:
  "fold init_step fs m k = Some v \<Longrightarrow>
     m k = Some v \<or> (\<exists>f\<in>set fs. fieldId f = k \<and> v = initialValue f)"
proof (induction fs arbitrary: m)
  case Nil
  then show ?case by simp
next
  case (Cons f fs)
  from Cons.prems have "fold init_step fs (init_step f m) k = Some v" by simp
  from Cons.IH [OF this] show ?case
    by (auto simp: init_step_apply split: if_splits)
qed

lemma init_fold_other: "k \<notin> fieldId ` set fs \<Longrightarrow> fold init_step fs m k = m k"
proof (induction fs arbitrary: m)
  case Nil
  show ?case by simp
next
  case (Cons g fs)
  then have "fold init_step fs (init_step g m) k = init_step g m k" by simp
  moreover from Cons.prems have "init_step g m k = m k"
    by (auto simp: init_step_apply)
  ultimately show ?case by simp
qed

lemma init_fold_proto: "fold init_step fs m ''__proto__'' = m ''__proto__''"
proof (induction fs arbitrary: m)
  case Nil
  show ?case by simp
next
  case (Cons g fs)
  have "fold init_step fs (init_step g m) ''__proto__'' = init_step g m ''__proto__''"
    by (rule Cons.IH)
  moreover have "init_step g m ''__proto__'' = m ''__proto__''"
    by (simp add: init_step_apply)
  ultimately show ?case by simp
qed

lemma init_fold_distinct:
  "distinct (map fieldId fs) \<Longrightarrow> f \<in> set fs \<Longrightarrow> fieldId f \<noteq> ''__proto__'' \<Longrightarrow>
     fold init_step fs m (fieldId f) = Some (initialValue f)"
proof (induction fs arbitrary: m)
  case Nil
  then show ?case by simp
next
  case (Cons g fs)
  show ?case
  proof (cases "f = g")
    case True
    with Cons.prems have "fieldId f \<notin> fieldId ` set fs" by auto
    then have "fold init_step fs (init_step g m) (fieldId f) = init_step g m (fieldId f)"
      by (rule init_fold_other)
    moreover from True Cons.prems(3) have "init_step g m (fieldId g) = Some (initialValue g)"
      by (simp add: init_step_apply)
    ultimately show ?thesis using True by simp
  next
    case False
    with Cons.prems Cons.IH [of "init_step g m"] show ?thesis by simp
  qed
qed

section \<open>Evaluation on the example schema\<close>

lemma ex_section0_errors:
  "section_errors (ex_state [''name'' \<mapsto> VStr ''A'', ''nick'' \<mapsto> VStr []] e 0) [ex_name, ex_nick]
     = [''name'' \<mapsto> ''Minimum length is 2 characters'']"
  by (simp add: section_errors_def validate_step_def assign_def validateField_def is_missing_def
      string_of_nat.simps digit_char_def ex_defs)

lemma ex_validate_simps:
  "validateField (ex_state [''name'' \<mapsto> VStr ''A'', ''nick'' \<mapsto> VStr []] e i) ex_name
     = ''Minimum length is 2 characters''"
  "validateField (ex_state [''name'' \<mapsto> VStr ''A'', ''nick'' \<mapsto> VStr []] e i) ex_nick = []"
  "validateField (ex_state [''name'' \<mapsto> VStr ''Al'', ''nick'' \<mapsto> VStr []] e i) ex_name = []"
  "validateField (ex_state [''name'' \<mapsto> VStr ''Al'', ''nick'' \<mapsto> VStr []] e i) ex_nick = []"
  by (simp_all add: validateField_def Let_def is_missing_def string_of_nat.simps digit_char_def
      ex_defs)

lemma ex_initialValues:
  "initialValues ex_schema =
     [''name'' \<mapsto> VStr [], ''nick'' \<mapsto> VStr [], ''hobbies'' \<mapsto> VArr [], ''agree'' \<mapsto> VBool False]"
  by (simp add: initialValues_def initialValue_def assign_def ex_defs)

lemma ex_loaded_simps:
  "formData ex_loaded = Some ex_schema" "currentSectionIndex ex_loaded = 0"
  "formValues ex_loaded = initialValues ex_schema" "formErrors ex_loaded = Map.empty"
  by (simp_all add: ex_loaded_def fetchFormData_def initial_state_def)

lemma ex_loaded_next: "handleNext ex_loaded = Inr ex_failed"
proof -
  have "validateField ex_loaded ex_name = ''This field is required''"
    "validateField ex_loaded ex_nick = []"
    by (simp_all add: validateField_def Let_def ex_loaded_simps ex_initialValues is_missing_def
        required_message_def ex_name_def ex_nick_def)
  then have "fold (validate_step ex_loaded) [ex_name, ex_nick] (True, Map.empty)
      = (False, [''name'' \<mapsto> ''This field is required''])"
    by (simp add: validate_step_def assign_def Let_def ex_name_def)
  then show ?thesis
    by (simp add: handleNext_def validateSection_def Let_def ex_loaded_simps ex_failed_def)
      (simp add: ex_schema_def)
qed




section \<open>Trimming\<close>

lemma dropWhile_all_iff: "(\<forall>x\<in>set (dropWhile P s). P x) = (dropWhile P s = [])"
proof
  assume all: "\<forall>x\<in>set (dropWhile P s). P x"
  show "dropWhile P s = []"
  proof (rule ccontr)
    assume ne: "dropWhile P s \<noteq> []"
    then have "\<not> P (hd (dropWhile P s))" by (rule hd_dropWhile)
    moreover from ne have "hd (dropWhile P s) \<in> set (dropWhile P s)" by simp
    ultimately show False using all by blast
  qed
next
  assume e: "dropWhile P s = []"
  show "\<forall>x\<in>set (dropWhile P s). P x" unfolding e by simp
qed

lemma trim_empty_iff: "(trim s = []) = (\<forall>c\<in>set s. is_whitespace c)"
  by (simp add: trim_def dropWhile_eq_Nil_conv dropWhile_all_iff)

section \<open>Section validation (C1)\<close>

text \<open>
  Where no field of the section is named \<^verbatim>\<open>__proto__\<close>, section validation does what is
  asked of it. With a schema loaded and \<open>i\<close> the index of one of its sections,
  \<^verbatim>\<open>validateSection\<close> runs the per-field rule on the fields \<open>fs\<close> of that section and on
  nothing else, and stores the map \<open>section_errors st fs\<close> it built from the empty map in
  place of the previous error map. That map has an entry for a field identifier exactly
  when a field of the section with that identifier got a non-empty message, the entry is
  such a message (the field's own message when the identifiers of the section are
  distinct), identifiers outside the section have no entry whatever the previous map
  \<open>e\<close> held, and the returned boolean is true exactly when the map is empty.
\<close>

lemma validateSection_unless_proto:
  assumes "formData st = Some data" and "i < length (sections (form data))"
    and "fs = section_fields (sections (form data) ! i)"
    and "''__proto__'' \<notin> fieldId ` set fs"
  shows "validateSection st i =
           Inr (section_errors st fs = Map.empty, st\<lparr>formErrors := section_errors st fs\<rparr>)
       \<and> (\<forall>k. (k \<in> dom (section_errors st fs))
                = (\<exists>f\<in>set fs. fieldId f = k \<and> validateField st f \<noteq> []))
       \<and> (\<forall>k m. section_errors st fs k = Some m
                \<longrightarrow> (\<exists>f\<in>set fs. fieldId f = k \<and> validateField st f = m))
       \<and> (distinct (map fieldId fs) \<longrightarrow>
            (\<forall>f\<in>set fs. section_errors st fs (fieldId f)
                = (if validateField st f = [] then None else Some (validateField st f))))
       \<and> (\<forall>k. k \<notin> fieldId ` set fs \<longrightarrow> section_errors st fs k = None)
       \<and> section_errors (st\<lparr>formErrors := e\<rparr>) fs = section_errors st fs"
proof (intro conjI)
  show "validateSection st i =
          Inr (section_errors st fs = Map.empty, st\<lparr>formErrors := section_errors st fs\<rparr>)"
    using validateSection_eq [OF assms(1,2)] assms(3) section_errors_empty_iff [OF assms(4), of st]
    by simp
  from assms(4) have np: "\<forall>f\<in>set fs. fieldId f \<noteq> ''__proto__''" by (auto simp: image_iff)
  then show "\<forall>k. (k \<in> dom (section_errors st fs))
                = (\<exists>f\<in>set fs. fieldId f = k \<and> validateField st f \<noteq> [])"
    unfolding section_errors_def validate_fold_dom by auto
  show "\<forall>k m. section_errors st fs k = Some m
                \<longrightarrow> (\<exists>f\<in>set fs. fieldId f = k \<and> validateField st f = m)"
    unfolding section_errors_def by (auto dest: validate_fold_entry)
  show "distinct (map fieldId fs) \<longrightarrow>
            (\<forall>f\<in>set fs. section_errors st fs (fieldId f)
                = (if validateField st f = [] then None else Some (validateField st f)))"
  proof (intro impI ballI)
    fix f assume d: "distinct (map fieldId fs)" and f: "f \<in> set fs"
    with np have "fieldId f \<noteq> ''__proto__''" by blast
    from validate_fold_distinct [OF d f this, of st "(True, Map.empty)"]
    show "section_errors st fs (fieldId f)
                = (if validateField st f = [] then None else Some (validateField st f))"
      by (simp add: section_errors_def)
  qed
  show "\<forall>k. k \<notin> fieldId ` set fs \<longrightarrow> section_errors st fs k = None"
    unfolding section_errors_def by (simp add: validate_fold_other)
  show "section_errors (st\<lparr>formErrors := e\<rparr>) fs = section_errors st fs"
    by (rule section_errors_values_only) simp
qed

text \<open>
  On the two-section schema: the only field that fails is \<^verbatim>\<open>name\<close>, and the stale entry
  of \<^verbatim>\<open>hobbies\<close>, a field of the other section, is gone.
\<close>

lemma validateSection_unless_proto_example:
  "validateSection
        (ex_state [''name'' \<mapsto> VStr ''A'', ''nick'' \<mapsto> VStr []] [''hobbies'' \<mapsto> ''Pick one''] 0) 0
       = Inr (False,
              ex_state [''name'' \<mapsto> VStr ''A'', ''nick'' \<mapsto> VStr []]
                       [''name'' \<mapsto> ''Minimum length is 2 characters''] 0)"
proof -
  let ?st = "ex_state [''name'' \<mapsto> VStr ''A'', ''nick'' \<mapsto> VStr []] [''hobbies'' \<mapsto> ''Pick one''] 0"
  have a: "formData ?st = Some ex_schema" by (simp add: ex_state_def)
  have b: "0 < length (sections (form ex_schema))" by (simp add: ex_schema_def)
  have c: "[ex_name, ex_nick] = section_fields (sections (form ex_schema) ! 0)"
    by (simp add: ex_schema_def)
  have d: "''__proto__'' \<notin> fieldId ` set [ex_name, ex_nick]" by (simp add: ex_name_def ex_nick_def)
  from validateSection_unless_proto [OF a b c d] show ?thesis
    by (simp add: ex_section0_errors) (simp add: ex_state_def)
qed


section \<open>The per-field rule (C2, C10)\<close>

text \<open>
  C2, as the code has it. Let \<open>v\<close> be the current value of the field. If the field is
  required and \<open>v\<close> is absent, the empty string or the empty sequence, the result is the
  custom message when there is one and it is not empty, and \<^verbatim>\<open>This field is required\<close>
  otherwise. Otherwise an absent value and the empty string pass; a non-empty string
  shorter than a given \<^verbatim>\<open>minLength\<close> gets the minimum-length message; failing that, a
  string longer than a given non-zero \<^verbatim>\<open>maxLength\<close> gets the maximum-length message;
  every other value passes.
\<close>

theorem validateField_rule:
  assumes "formValues st (fieldId field) = v"
  shows
    "(required field \<and> (v = None \<or> v = Some (VStr []) \<or> v = Some (VArr [])) \<longrightarrow>
        (\<forall>r. validation field = Some r \<and> message r \<noteq> [] \<longrightarrow> validateField st field = message r)
      \<and> (validation field = None \<or> (\<exists>r. validation field = Some r \<and> message r = []) \<longrightarrow>
            validateField st field = ''This field is required''))
   \<and> (\<not> (required field \<and> (v = None \<or> v = Some (VStr []) \<or> v = Some (VArr []))) \<longrightarrow>
        (v = None \<or> v = Some (VStr []) \<longrightarrow> validateField st field = [])
      \<and> (\<forall>s. v = Some (VStr s) \<and> s \<noteq> [] \<longrightarrow>
            (\<forall>n. minLength field = Some n \<and> length s < n \<longrightarrow>
               validateField st field = ''Minimum length is '' @ string_of_nat n @ '' characters'')
          \<and> (\<not> (\<exists>n. minLength field = Some n \<and> length s < n) \<longrightarrow>
               (\<forall>n. maxLength field = Some n \<and> n \<noteq> 0 \<and> length s > n \<longrightarrow>
                  validateField st field = ''Maximum length is '' @ string_of_nat n @ '' characters'')
             \<and> (\<not> (\<exists>n. maxLength field = Some n \<and> n \<noteq> 0 \<and> length s > n) \<longrightarrow>
                  validateField st field = [])))
      \<and> (\<forall>xs. v = Some (VArr xs) \<longrightarrow> validateField st field = [])
      \<and> (\<forall>b. v = Some (VBool b) \<longrightarrow> validateField st field = []))"
proof -
  have req: "required field \<and> is_missing v \<Longrightarrow>
      validateField st field =
          (case validation field of
             None \<Rightarrow> ''This field is required''
           | Some r \<Rightarrow> if message r \<noteq> [] then message r else ''This field is required'')"
    using assms by (auto simp: validateField_def Let_def required_message_def split: option.splits)
  have empty: "\<not> (required field \<and> is_missing v) \<Longrightarrow> v = None \<or> v = Some (VStr [])
      \<Longrightarrow> validateField st field = []"
    using assms by (auto simp: validateField_def Let_def)
  have str: "\<not> (required field \<and> is_missing v) \<Longrightarrow> v = Some (VStr s) \<Longrightarrow> s \<noteq> [] \<Longrightarrow>
      validateField st field =
        (case too_short (minLength field) v of
           Some n \<Rightarrow> ''Minimum length is '' @ string_of_nat n @ '' characters''
         | None \<Rightarrow>
             (case too_long (maxLength field) v of
                Some n \<Rightarrow> ''Maximum length is '' @ string_of_nat n @ '' characters''
              | None \<Rightarrow> []))" for s
    using assms by (auto simp: validateField_def Let_def)
  have other: "\<not> (required field \<and> is_missing v) \<Longrightarrow> v = Some (VArr xs) \<or> v = Some (VBool b)
      \<Longrightarrow> validateField st field = []" for xs b
    using assms by (cases "minLength field"; cases "maxLength field") (auto simp: validateField_def Let_def)
  have short: "too_short (minLength field) (Some (VStr s)) =
      (if \<exists>n. minLength field = Some n \<and> length s < n then minLength field else None)" for s
    by (cases "minLength field") auto
  have long: "too_long (maxLength field) (Some (VStr s)) =
      (if \<exists>n. maxLength field = Some n \<and> n \<noteq> 0 \<and> length s > n then maxLength field else None)" for s
    by (cases "maxLength field") auto
  show ?thesis
    using req empty other str short long
    by (auto simp: is_missing_def)
qed

text \<open>
  One input for each branch of the rule.
\<close>

theorem validateField_rule_witness:
  "validateField (ex_state [''hobbies'' \<mapsto> VArr []] Map.empty 1) ex_hobbies = ''Pick one''
   \<and> validateField (ex_state Map.empty Map.empty 0) ex_name = ''This field is required''
   \<and> validateField (ex_state [''nick'' \<mapsto> VStr []] Map.empty 0) ex_nick = []
   \<and> validateField (ex_state [''name'' \<mapsto> VStr ''A''] Map.empty 0) ex_name
        = ''Minimum length is 2 characters''
   \<and> validateField (ex_state [''name'' \<mapsto> VStr ''Albert''] Map.empty 0) ex_name
        = ''Maximum length is 5 characters''
   \<and> validateField (ex_state [''name'' \<mapsto> VStr ''Al''] Map.empty 0) ex_name = []
   \<and> validateField (ex_state [''hobbies'' \<mapsto> VArr [''a'']] Map.empty 1) ex_hobbies = []"
proof -
  have h1: "formValues (ex_state [''hobbies'' \<mapsto> VArr []] Map.empty 1) (fieldId ex_hobbies)
              = Some (VArr [])"
    and h2: "formValues (ex_state Map.empty Map.empty 0) (fieldId ex_name) = None"
    and h3: "formValues (ex_state [''nick'' \<mapsto> VStr []] Map.empty 0) (fieldId ex_nick)
              = Some (VStr [])"
    and h4: "formValues (ex_state [''name'' \<mapsto> VStr ''A''] Map.empty 0) (fieldId ex_name)
              = Some (VStr ''A'')"
    and h5: "formValues (ex_state [''name'' \<mapsto> VStr ''Albert''] Map.empty 0) (fieldId ex_name)
              = Some (VStr ''Albert'')"
    and h6: "formValues (ex_state [''name'' \<mapsto> VStr ''Al''] Map.empty 0) (fieldId ex_name)
              = Some (VStr ''Al'')"
    and h7: "formValues (ex_state [''hobbies'' \<mapsto> VArr [''a'']] Map.empty 1) (fieldId ex_hobbies)
              = Some (VArr [''a''])"
    by (simp_all add: ex_defs)
  have n: "string_of_nat 2 = ''2''" "string_of_nat 5 = ''5''"
    by (simp_all add: string_of_nat.simps digit_char_def)
  have f: "required ex_hobbies" "validation ex_hobbies = Some \<lparr>message = ''Pick one''\<rparr>"
    "required ex_name" "validation ex_name = None" "minLength ex_name = Some 2"
    "maxLength ex_name = Some 5" "\<not> required ex_nick"
    by (simp_all add: ex_defs)
  show ?thesis
    using validateField_rule [OF h1] validateField_rule [OF h2] validateField_rule [OF h3]
      validateField_rule [OF h4] validateField_rule [OF h5] validateField_rule [OF h6]
      validateField_rule [OF h7]
    by (simp add: f n)
qed

text \<open>
  C2 as it is worded does not hold where \<^verbatim>\<open>maxLength\<close> is 0: the bound is given and the
  string \<^verbatim>\<open>a\<close> is longer, yet the guard \<^verbatim>\<open>field.maxLength && ...\<close> is falsy and the field
  passes.
\<close>

theorem validateField_max_zero_counterexample:
  "\<not> required ex_nick
   \<and> formValues (ex_state [''nick'' \<mapsto> VStr ''a''] Map.empty 0) (fieldId ex_nick) = Some (VStr ''a'')
   \<and> minLength ex_nick = None \<and> maxLength ex_nick = Some 0 \<and> length ''a'' > (0::nat)
   \<and> validateField (ex_state [''nick'' \<mapsto> VStr ''a''] Map.empty 0) ex_nick = []
   \<and> validateField (ex_state [''nick'' \<mapsto> VStr ''a''] Map.empty 0) ex_nick
        \<noteq> ''Maximum length is '' @ string_of_nat 0 @ '' characters''"
  by (simp add: validateField_def is_missing_def ex_defs)

text \<open>
  The custom message is read the same way: an empty one gives way to the default text.
\<close>

lemma validateField_empty_message_default:
  "validation (ex_nick\<lparr>required := True\<rparr>) = Some \<lparr>message = []\<rparr>
   \<and> validateField (ex_state [''nick'' \<mapsto> VStr []] Map.empty 0) (ex_nick\<lparr>required := True\<rparr>)
       = ''This field is required''"
  by (simp add: validateField_def is_missing_def required_message_def ex_defs)

text \<open>
  C10. A required single checkbox (type \<^verbatim>\<open>checkbox\<close>, no options) whose value is the
  boolean \<^verbatim>\<open>false\<close> passes the per-field rule.
\<close>

theorem required_unchecked_checkbox_passes:
  assumes "ftype field = ''checkbox''" and "options field = None" and "required field"
    and "formValues st (fieldId field) = Some (VBool False)"
  shows "validateField st field = []"
  using assms(4)
  by (cases "minLength field"; cases "maxLength field") (simp_all add: validateField_def Let_def is_missing_def)

theorem required_unchecked_checkbox_passes_witness:
  "ftype ex_agree = ''checkbox'' \<and> options ex_agree = None \<and> required ex_agree
   \<and> formValues (ex_state [''agree'' \<mapsto> VBool False] Map.empty 1) (fieldId ex_agree)
        = Some (VBool False)
   \<and> validateField (ex_state [''agree'' \<mapsto> VBool False] Map.empty 1) ex_agree = []"
proof -
  have a: "ftype ex_agree = ''checkbox''" and b: "options ex_agree = None"
    and c: "required ex_agree"
    and d: "formValues (ex_state [''agree'' \<mapsto> VBool False] Map.empty 1) (fieldId ex_agree)
              = Some (VBool False)"
    by (simp_all add: ex_defs)
  from required_unchecked_checkbox_passes [OF a b c d] a b c d show ?thesis by simp
qed

section \<open>Toggling an option twice (C3)\<close>

text \<open>
  C3, as the code has it. For a duplicate-free sequence \<open>xs\<close> of selected values,
  toggling \<open>v\<close> twice gives a duplicate-free sequence with the same values, in which the
  values other than \<open>v\<close> keep their order. It is \<open>xs\<close> itself when \<open>v\<close> was not
  selected; when \<open>v\<close> was selected it is \<open>xs\<close> with \<open>v\<close> moved to the end.
\<close>

theorem double_toggle_contents:
  assumes "distinct xs"
  shows "set (double_toggle xs v) = set xs
       \<and> distinct (double_toggle xs v)
       \<and> filter (\<lambda>x. x \<noteq> v) (double_toggle xs v) = filter (\<lambda>x. x \<noteq> v) xs
       \<and> (v \<notin> set xs \<longrightarrow> double_toggle xs v = xs)
       \<and> (v \<in> set xs \<longrightarrow> double_toggle xs v = filter (\<lambda>x. x \<noteq> v) xs @ [v])"
proof (cases "v \<in> set xs")
  case True
  then have "double_toggle xs v = filter (\<lambda>x. x \<noteq> v) xs @ [v]"
    by (simp add: double_toggle_def handleCheckboxGroupChange_def)
  with True assms show ?thesis by auto
next
  case False
  then have "filter (\<lambda>x. x \<noteq> v) xs = xs" by (induction xs) auto
  with False have "double_toggle xs v = xs"
    by (simp add: double_toggle_def handleCheckboxGroupChange_def)
  with False assms show ?thesis by simp
qed

theorem double_toggle_contents_witness:
  "distinct [''a'', ''b'', ''c'']
   \<and> double_toggle [''a'', ''b'', ''c''] ''b'' = [''a'', ''c'', ''b'']
   \<and> double_toggle [''a'', ''b'', ''c''] ''d'' = [''a'', ''b'', ''c'']"
proof -
  have d: "distinct [''a'', ''b'', ''c'']" by simp
  from double_toggle_contents [OF d, of "''b''"] double_toggle_contents [OF d, of "''d''"] d
  show ?thesis by simp
qed

text \<open>
  C3 as it is worded does not hold: with \<^verbatim>\<open>a\<close> and \<^verbatim>\<open>b\<close> selected in this order,
  toggling \<^verbatim>\<open>a\<close> twice leaves \<^verbatim>\<open>b\<close> before \<^verbatim>\<open>a\<close>.
\<close>

theorem double_toggle_order_counterexample:
  "distinct [''a'', ''b''] \<and> double_toggle [''a'', ''b''] ''a'' = [''b'', ''a'']
   \<and> double_toggle [''a'', ''b''] ''a'' \<noteq> [''a'', ''b'']"
  by (simp add: double_toggle_def handleCheckboxGroupChange_def)

section \<open>Editing a field (C4)\<close>

text \<open>
  C4. In every reachable state, \<^verbatim>\<open>handleFieldChange\<close> stores the new value under the
  field identifier, leaves no error entry under that identifier, whatever the new value
  is, and changes no other entry of the value map or of the error map.
\<close>

theorem handleFieldChange_clears_error:
  assumes "reachable st"
  shows "formValues (handleFieldChange fid v st) fid = Some v
       \<and> formErrors (handleFieldChange fid v st) fid = None
       \<and> (\<forall>k. k \<noteq> fid \<longrightarrow>
             formValues (handleFieldChange fid v st) k = formValues st k
           \<and> formErrors (handleFieldChange fid v st) k = formErrors st k)"
proof -
  from assms have "errors_nonempty (formErrors st)" by (rule reachable_errors_nonempty)
  then have "formErrors st fid = None \<or> (\<exists>m. formErrors st fid = Some m \<and> m \<noteq> [])"
    by (cases "formErrors st fid") (auto simp: errors_nonempty_def)
  then show ?thesis
    by (auto simp: handleFieldChange_def Let_def)
qed

text \<open>
  On the example: after a failed \<^verbatim>\<open>Next\<close> on the freshly loaded form, typing \<^verbatim>\<open>A\<close>
  into \<^verbatim>\<open>name\<close> removes its error although \<^verbatim>\<open>A\<close> is too short.
\<close>

theorem handleFieldChange_clears_error_witness:
  "reachable ex_failed
   \<and> formErrors ex_failed ''name'' = Some ''This field is required''
   \<and> formValues (handleFieldChange ''name'' (VStr ''A'') ex_failed) ''name'' = Some (VStr ''A'')
   \<and> formErrors (handleFieldChange ''name'' (VStr ''A'') ex_failed) ''name'' = None
   \<and> formValues (handleFieldChange ''name'' (VStr ''A'') ex_failed) ''nick''
        = formValues ex_failed ''nick''"
proof -
  have r: "reachable ex_failed"
    using reachable.went_on [OF reachable.loaded ex_loaded_next [unfolded ex_loaded_def]] .
  have e: "formErrors ex_failed ''name'' = Some ''This field is required''"
    by (simp add: ex_failed_def)
  from handleFieldChange_clears_error [OF r, of "''name''" "VStr ''A''"] r e show ?thesis
    by simp
qed

section \<open>Going back (C5)\<close>

text \<open>
  C5. \<^verbatim>\<open>handlePrevious\<close> leaves the error map, the value map and the effects alone, so
  it validates nothing; the button is disabled exactly at index 0; from an index above 0
  the handler steps back by one, and at index 0 it does nothing.
\<close>

theorem handlePrevious_no_validation:
  "formErrors (handlePrevious st) = formErrors st
   \<and> formValues (handlePrevious st) = formValues st
   \<and> effects (handlePrevious st) = effects st
   \<and> previous_disabled (currentSectionIndex st) = (currentSectionIndex st = 0)
   \<and> (currentSectionIndex st > 0 \<longrightarrow>
        handlePrevious st = st\<lparr>currentSectionIndex := currentSectionIndex st - 1\<rparr>
      \<and> currentSectionIndex (handlePrevious st) + 1 = currentSectionIndex st)
   \<and> (currentSectionIndex st = 0 \<longrightarrow> handlePrevious st = st)
   \<and> click_previous st = handlePrevious st"
  by (simp add: handlePrevious_def previous_disabled_def click_previous_def)

theorem handlePrevious_no_validation_witness:
  "currentSectionIndex (handlePrevious (ex_state [''name'' \<mapsto> VStr []] [''agree'' \<mapsto> ''This field is required''] 1)) = 0
   \<and> formErrors (handlePrevious (ex_state [''name'' \<mapsto> VStr []] [''agree'' \<mapsto> ''This field is required''] 1))
        = [''agree'' \<mapsto> ''This field is required'']
   \<and> \<not> previous_disabled 1 \<and> previous_disabled 0"
  using handlePrevious_no_validation [of "ex_state [''name'' \<mapsto> VStr []] [''agree'' \<mapsto> ''This field is required''] 1"]
    handlePrevious_no_validation [of "ex_state Map.empty Map.empty 0"]
  by (simp add: ex_state_def)

section \<open>Going forward (C6)\<close>

text \<open>
  Where no field of the section is named \<^verbatim>\<open>__proto__\<close>: on a section that is not the
  last, \<^verbatim>\<open>handleNext\<close> validates the current section. If every field passes, the index
  advances by one and the error map is empty. If some field fails, the index stays and
  the error map is the one built by the validation: it has a non-empty message for every
  failing field, the field's own message when the identifiers of the section are
  distinct.
\<close>

lemma handleNext_unless_proto:
  assumes "formData st = Some data"
    and "currentSectionIndex st + 1 < length (sections (form data))"
    and "fs = section_fields (sections (form data) ! currentSectionIndex st)"
    and "''__proto__'' \<notin> fieldId ` set fs"
  shows "validateSection st (currentSectionIndex st) =
           Inr (\<forall>f\<in>set fs. validateField st f = [], st\<lparr>formErrors := section_errors st fs\<rparr>)
       \<and> ((\<forall>f\<in>set fs. validateField st f = []) \<longrightarrow>
             handleNext st =
               Inr (st\<lparr>formErrors := Map.empty,
                       currentSectionIndex := currentSectionIndex st + 1,
                       effects := effects st @ [ScrollToTop]\<rparr>))
       \<and> ((\<exists>f\<in>set fs. validateField st f \<noteq> []) \<longrightarrow>
             handleNext st = Inr (st\<lparr>formErrors := section_errors st fs\<rparr>)
           \<and> (\<forall>f\<in>set fs. validateField st f \<noteq> [] \<longrightarrow>
                 (\<exists>m. section_errors st fs (fieldId f) = Some m \<and> m \<noteq> []))
           \<and> (distinct (map fieldId fs) \<longrightarrow>
                 (\<forall>f\<in>set fs. validateField st f \<noteq> [] \<longrightarrow>
                    section_errors st fs (fieldId f) = Some (validateField st f))))"
proof -
  from assms(2) have i: "currentSectionIndex st < length (sections (form data))" by simp
  have v: "validateSection st (currentSectionIndex st) =
      Inr (\<forall>f\<in>set fs. validateField st f = [], st\<lparr>formErrors := section_errors st fs\<rparr>)"
    using validateSection_eq [OF assms(1) i] assms(3) by simp
  from assms(4) have np: "\<forall>f\<in>set fs. fieldId f \<noteq> ''__proto__''" by (auto simp: image_iff)
  have ok: "handleNext st =
               Inr (st\<lparr>formErrors := Map.empty,
                       currentSectionIndex := currentSectionIndex st + 1,
                       effects := effects st @ [ScrollToTop]\<rparr>)"
    if "\<forall>f\<in>set fs. validateField st f = []"
  proof -
    from that have "section_errors st fs = Map.empty" by (rule section_errors_all_valid)
    with that assms(1,2) v show ?thesis by (simp add: handleNext_def)
  qed
  have bad: "handleNext st = Inr (st\<lparr>formErrors := section_errors st fs\<rparr>)"
    if "\<exists>f\<in>set fs. validateField st f \<noteq> []"
    using that assms(1) v by (auto simp: handleNext_def)
  have msgs: "\<forall>f\<in>set fs. validateField st f \<noteq> [] \<longrightarrow>
                 (\<exists>m. section_errors st fs (fieldId f) = Some m \<and> m \<noteq> [])"
    using np by (auto dest: section_errors_failing)
  have exact: "distinct (map fieldId fs) \<longrightarrow>
                 (\<forall>f\<in>set fs. validateField st f \<noteq> [] \<longrightarrow>
                    section_errors st fs (fieldId f) = Some (validateField st f))"
    unfolding section_errors_def using np by (simp add: validate_fold_distinct)
  from v ok bad msgs exact show ?thesis by blast
qed

text \<open>
  The scenario of the specification: \<^verbatim>\<open>A\<close> is too short and the form stays on section
  one with the minimum-length message; \<^verbatim>\<open>Al\<close> advances to section two and clears it.
\<close>

lemma handleNext_unless_proto_example:
  "handleNext (ex_state [''name'' \<mapsto> VStr ''A'', ''nick'' \<mapsto> VStr []] Map.empty 0)
     = Inr (ex_state [''name'' \<mapsto> VStr ''A'', ''nick'' \<mapsto> VStr []]
                     [''name'' \<mapsto> ''Minimum length is 2 characters''] 0)
   \<and> handleNext (ex_state [''name'' \<mapsto> VStr ''Al'', ''nick'' \<mapsto> VStr []]
                           [''name'' \<mapsto> ''Minimum length is 2 characters''] 0)
     = Inr ((ex_state [''name'' \<mapsto> VStr ''Al'', ''nick'' \<mapsto> VStr []] Map.empty 1)
              \<lparr>effects := [ScrollToTop]\<rparr>)"
proof -
  let ?s1 = "ex_state [''name'' \<mapsto> VStr ''A'', ''nick'' \<mapsto> VStr []] Map.empty 0"
  let ?s2 = "ex_state [''name'' \<mapsto> VStr ''Al'', ''nick'' \<mapsto> VStr []]
                      [''name'' \<mapsto> ''Minimum length is 2 characters''] 0"
  have a1: "formData ?s1 = Some ex_schema" and a2: "formData ?s2 = Some ex_schema"
    by (simp_all add: ex_state_def)
  have b1: "currentSectionIndex ?s1 + 1 < length (sections (form ex_schema))"
    and b2: "currentSectionIndex ?s2 + 1 < length (sections (form ex_schema))"
    by (simp_all add: ex_state_def ex_schema_def)
  have c1: "[ex_name, ex_nick] = section_fields (sections (form ex_schema) ! currentSectionIndex ?s1)"
    and c2: "[ex_name, ex_nick] = section_fields (sections (form ex_schema) ! currentSectionIndex ?s2)"
    by (simp_all add: ex_state_def ex_schema_def)
  have d: "''__proto__'' \<notin> fieldId ` set [ex_name, ex_nick]" by (simp add: ex_name_def ex_nick_def)
  have "handleNext ?s1 = Inr (?s1\<lparr>formErrors := section_errors ?s1 [ex_name, ex_nick]\<rparr>)"
    using handleNext_unless_proto [OF a1 b1 c1 d] by (simp add: ex_validate_simps)
  moreover have "handleNext ?s2 =
      Inr (?s2\<lparr>formErrors := Map.empty, currentSectionIndex := currentSectionIndex ?s2 + 1,
               effects := effects ?s2 @ [ScrollToTop]\<rparr>)"
    using handleNext_unless_proto [OF a2 b2 c2 d] by (simp add: ex_validate_simps)
  ultimately show ?thesis
    by (simp add: ex_section0_errors) (simp add: ex_state_def)
qed


section \<open>Initial values (C7)\<close>

text \<open>
  Where no field of the schema is named \<^verbatim>\<open>__proto__\<close>: after a successful fetch the value
  map is \<open>initialValues data\<close>. Its keys are the identifiers of the fields of all
  sections, every entry is the initial value of a field with that identifier (of the
  field itself when identifiers are distinct across the schema), and the initial value is
  the empty sequence for a checkbox with options, \<^verbatim>\<open>false\<close> for a checkbox without, and
  the empty string for any other type.
\<close>

lemma initialValues_unless_proto:
  assumes "''__proto__'' \<notin> fieldId ` set (all_fields data)"
  shows "formValues (fetchFormData roll (Inr data) st) = initialValues data
   \<and> dom (initialValues data) = fieldId ` set (all_fields data)
   \<and> (\<forall>k v. initialValues data k = Some v \<longrightarrow>
         (\<exists>f\<in>set (all_fields data). fieldId f = k \<and> v = initialValue f))
   \<and> (distinct (map fieldId (all_fields data)) \<longrightarrow>
         (\<forall>f\<in>set (all_fields data). initialValues data (fieldId f) = Some (initialValue f)))
   \<and> (\<forall>f. initialValue f =
         (if ftype f = ''checkbox'' \<and> options f \<noteq> None then VArr []
          else if ftype f = ''checkbox'' then VBool False else VStr []))"
proof (intro conjI)
  from assms have np: "\<forall>f\<in>set (all_fields data). fieldId f \<noteq> ''__proto__''"
    by (auto simp: image_iff)
  show "formValues (fetchFormData roll (Inr data) st) = initialValues data"
    by (simp add: fetchFormData_def)
  from assms show "dom (initialValues data) = fieldId ` set (all_fields data)"
    by (simp add: initialValues_all_fields init_fold_dom)
  show "\<forall>k v. initialValues data k = Some v \<longrightarrow>
         (\<exists>f\<in>set (all_fields data). fieldId f = k \<and> v = initialValue f)"
    unfolding initialValues_all_fields by (auto dest: init_fold_entry)
  from np show "distinct (map fieldId (all_fields data)) \<longrightarrow>
         (\<forall>f\<in>set (all_fields data). initialValues data (fieldId f) = Some (initialValue f))"
    by (simp add: initialValues_all_fields init_fold_distinct)
  show "\<forall>f. initialValue f =
         (if ftype f = ''checkbox'' \<and> options f \<noteq> None then VArr []
          else if ftype f = ''checkbox'' then VBool False else VStr [])"
    by (simp add: initialValue_def)
qed

text \<open>
  C7 asks that every field identifier of the schema have an entry in the initial value
  map, the empty string for a text field. The code misses this for a field named
  \<^verbatim>\<open>__proto__\<close>: the assignment to \<^verbatim>\<open>initialValues\<close> stores nothing, and the loaded
  state has no entry under that identifier. The object literal of
  \<^verbatim>\<open>handleFieldChange\<close> does store one under the same key.
\<close>

theorem initialValues_misses_proto_field:
  "ex_proto \<in> set (all_fields ex_proto_schema)
   \<and> fieldId ex_proto = ''__proto__''
   \<and> initialValue ex_proto = VStr []
   \<and> formValues (fetchFormData ''R1'' (Inr ex_proto_schema) initial_state) (fieldId ex_proto) = None
   \<and> formValues (handleFieldChange (fieldId ex_proto) (VStr [])
                   (fetchFormData ''R1'' (Inr ex_proto_schema) initial_state)) (fieldId ex_proto)
       = Some (VStr [])"
proof -
  have a: "all_fields ex_proto_schema = [ex_proto, ex_agree]"
    by (simp add: all_fields_def ex_proto_schema_def)
  have "initialValues ex_proto_schema ''__proto__'' = None"
    unfolding initialValues_all_fields by (simp only: init_fold_proto)
  then show ?thesis
    by (simp add: a fetchFormData_def handleFieldChange_def Let_def initialValue_def ex_proto_def
        initial_state_def)
qed

section \<open>Submitting (C8)\<close>

lemma join_closed_form: "join sep (x # xs) = x @ concat (map (\<lambda>y. sep @ y) xs)"
  by (induction xs arbitrary: x) simp_all

text \<open>
  C8, as the code has it. On the last section with every field of it valid,
  \<^verbatim>\<open>handleSubmit\<close> opens the summary and changes nothing else but the error map, which
  becomes empty; its only effect is a console line, no request is sent. The summary
  lists, section by section and field by field, the label and the formatted current
  value. A sequence is its first value followed by each further value behind a comma and
  a space, and the empty sequence is the empty text, not a dash; a boolean is \<^verbatim>\<open>Yes\<close>
  or \<^verbatim>\<open>No\<close>; an absent value and the empty string are a dash; any other string is
  shown as it is.
\<close>

theorem handleSubmit_opens_summary:
  assumes "formData st = Some data" and "isLast st data"
    and "fs = section_fields (sections (form data) ! currentSectionIndex st)"
    and "\<forall>f\<in>set fs. validateField st f = []"
  shows "handleSubmit st =
           Inr (st\<lparr>formErrors := Map.empty, showSubmissionModal := True,
                   effects := effects st @ [ConsoleLog (formValues st)]\<rparr>)
       \<and> summary_view (st\<lparr>formErrors := Map.empty, showSubmissionModal := True,
                           effects := effects st @ [ConsoleLog (formValues st)]\<rparr>)
           = Some (summary_of data (formValues st))
       \<and> formatValue (Some (VArr [])) = []
       \<and> (\<forall>x xs. formatValue (Some (VArr (x # xs))) = x @ concat (map (\<lambda>y. '', '' @ y) xs))
       \<and> formatValue (Some (VBool True)) = ''Yes''
       \<and> formatValue (Some (VBool False)) = ''No''
       \<and> formatValue (Some (VStr [])) = ''-''
       \<and> formatValue None = ''-''
       \<and> (\<forall>s. s \<noteq> [] \<longrightarrow> formatValue (Some (VStr s)) = s)"
proof -
  from assms(2) have i: "currentSectionIndex st < length (sections (form data))"
    by (simp add: isLast_def)
  from assms(4) have "section_errors st fs = Map.empty"
    by (rule section_errors_all_valid)
  with validateSection_eq [OF assms(1) i] assms(3,4)
  have "validateSection st (currentSectionIndex st) = Inr (True, st\<lparr>formErrors := Map.empty\<rparr>)"
    by simp
  with assms(1) have "handleSubmit st =
           Inr (st\<lparr>formErrors := Map.empty, showSubmissionModal := True,
                   effects := effects st @ [ConsoleLog (formValues st)]\<rparr>)"
    by (simp add: handleSubmit_def)
  moreover from assms(1)
  have "summary_view (st\<lparr>formErrors := Map.empty, showSubmissionModal := True,
                           effects := effects st @ [ConsoleLog (formValues st)]\<rparr>)
           = Some (summary_of data (formValues st))"
    by (simp add: summary_view_def renderSubmissionModal_def summary_of_def)
  ultimately show ?thesis by (simp add: formatValue_def join_closed_form)
qed

text \<open>
  On the two-section schema, and sequences of one, two and three values.
\<close>

theorem handleSubmit_opens_summary_witness:
  "isLast (ex_state ex_filled Map.empty 1) ex_schema
   \<and> handleSubmit (ex_state ex_filled Map.empty 1)
       = Inr ((ex_state ex_filled Map.empty 1)
                \<lparr>showSubmissionModal := True, effects := [ConsoleLog ex_filled]\<rparr>)
   \<and> summary_view ((ex_state ex_filled Map.empty 1)
                \<lparr>showSubmissionModal := True, effects := [ConsoleLog ex_filled]\<rparr>)
       = Some [(''About'', [(''Name'', ''Al''), (''Nickname'', ''-'')]),
               (''More'', [(''Hobbies'', ''a, b''), (''I agree'', ''No'')])]
   \<and> formatValue (Some (VArr [''a''])) = ''a''
   \<and> formatValue (Some (VArr [''a'', ''b''])) = ''a, b''
   \<and> formatValue (Some (VArr [''a'', ''b'', ''c''])) = ''a, b, c''"
proof -
  let ?s = "ex_state ex_filled Map.empty 1"
  have a: "formData ?s = Some ex_schema" by (simp add: ex_state_def)
  have b: "isLast ?s ex_schema" by (simp add: isLast_def ex_state_def ex_schema_def)
  have c: "[ex_hobbies, ex_agree] = section_fields (sections (form ex_schema) ! currentSectionIndex ?s)"
    by (simp add: ex_state_def ex_schema_def)
  have d: "\<forall>f\<in>set [ex_hobbies, ex_agree]. validateField ?s f = []"
    by (simp add: validateField_def Let_def is_missing_def ex_defs ex_filled_def)
  have e: "summary_of ex_schema (formValues ?s) =
      [(''About'', [(''Name'', ''Al''), (''Nickname'', ''-'')]),
       (''More'', [(''Hobbies'', ''a, b''), (''I agree'', ''No'')])]"
    by (simp add: summary_of_def formatValue_def ex_defs ex_filled_def)
  have f: "?s\<lparr>formErrors := Map.empty, showSubmissionModal := True,
              effects := effects ?s @ [ConsoleLog (formValues ?s)]\<rparr>
         = ?s\<lparr>showSubmissionModal := True, effects := [ConsoleLog ex_filled]\<rparr>"
    by (simp add: ex_state_def)
  from handleSubmit_opens_summary [OF a b c d] b e show ?thesis
    unfolding f by simp
qed

text \<open>
  C8 as it is worded does not hold: it has an empty value rendered as a dash, and the
  empty sequence is the empty value of a group of checkboxes. With no option of an
  optional group selected, submit succeeds and the summary shows the empty text beside
  the label.
\<close>

theorem summary_empty_sequence_counterexample:
  "isLast ex_tags_loaded ex_tags_schema
   \<and> formValues ex_tags_loaded (fieldId ex_tags) = Some (VArr [])
   \<and> handleSubmit ex_tags_loaded = Inr ex_tags_submitted
   \<and> summary_view ex_tags_submitted = Some [(''Extras'', [(''Tags'', [])])]
   \<and> summary_view ex_tags_submitted \<noteq> Some [(''Extras'', [(''Tags'', ''-'')])]"
proof -
  have v: "formValues ex_tags_loaded = [''tags'' \<mapsto> VArr []]"
    and d: "formData ex_tags_loaded = Some ex_tags_schema"
    and i: "currentSectionIndex ex_tags_loaded = 0"
    by (simp_all add: ex_tags_loaded_def fetchFormData_def initial_state_def initialValues_def
        initialValue_def assign_def ex_tags_schema_def ex_tags_def)
  have r: "validateField ex_tags_loaded ex_tags = []"
    by (simp add: validateField_def Let_def v ex_tags_def)
  have s: "handleSubmit ex_tags_loaded = Inr ex_tags_submitted"
    by (simp add: handleSubmit_def validateSection_def Let_def d i validate_step_def r
        ex_tags_submitted_def ex_tags_schema_def)
      (simp add: ex_tags_loaded_def fetchFormData_def initial_state_def)
  have m: "summary_view ex_tags_submitted = Some [(''Extras'', [(''Tags'', [])])]"
    by (simp add: summary_view_def renderSubmissionModal_def ex_tags_submitted_def d v
        formatValue_def)
      (simp add: ex_tags_schema_def ex_tags_def)
  from v d i s m show ?thesis
    by (simp add: isLast_def ex_tags_schema_def ex_tags_def)
qed

section \<open>Logging in (C9)\<close>

text \<open>
  C9. If the roll number or the name is blank after trimming, the login handler sets
  the error to \<^verbatim>\<open>Both Roll Number and Name are required\<close> and changes nothing else: no
  effect is recorded, so \<^verbatim>\<open>createUser\<close> is not called. If neither is blank it calls
  \<^verbatim>\<open>createUser\<close> once, with the user as entered. A string is blank after trimming
  exactly when all its characters are white space.
\<close>

theorem login_blank_issues_no_call:
  "(blank (rollNumber (user st)) \<or> blank (name (user st)) \<longrightarrow>
      login_handleSubmit reply st = st\<lparr>login_error := Some ''Both Roll Number and Name are required''\<rparr>
    \<and> login_effects (login_handleSubmit reply st) = login_effects st)
   \<and> (\<not> blank (rollNumber (user st)) \<and> \<not> blank (name (user st)) \<longrightarrow>
        (\<exists>rest. login_effects (login_handleSubmit reply st)
                 = login_effects st @ CallCreateUser (user st) # rest
               \<and> (\<forall>u. CallCreateUser u \<notin> set rest)))
   \<and> (\<forall>s. blank s = (\<forall>c\<in>set s. is_whitespace c))"
  by (auto simp: login_handleSubmit_def Let_def blank_def trim_empty_iff split: sum.splits)

theorem login_blank_issues_no_call_witness:
  "blank ''  ''
   \<and> login_handleSubmit (Inr \<lparr>success = True, result_message = ''ok''\<rparr>)
        \<lparr>user = \<lparr>rollNumber = ''  '', name = ''Ann''\<rparr>, login_isLoading = False,
         login_error = None, login_effects = []\<rparr>
      = \<lparr>user = \<lparr>rollNumber = ''  '', name = ''Ann''\<rparr>, login_isLoading = False,
         login_error = Some ''Both Roll Number and Name are required'', login_effects = []\<rparr>
   \<and> \<not> blank ''R1'' \<and> \<not> blank ''Ann''
   \<and> login_effects (login_handleSubmit (Inr \<lparr>success = True, result_message = ''ok''\<rparr>)
        \<lparr>user = \<lparr>rollNumber = ''R1'', name = ''Ann''\<rparr>, login_isLoading = False,
         login_error = None, login_effects = []\<rparr>)
      = [CallCreateUser \<lparr>rollNumber = ''R1'', name = ''Ann''\<rparr>,
         LoginSuccess \<lparr>rollNumber = ''R1'', name = ''Ann''\<rparr>]"
proof -
  have b: "blank ''  ''" "\<not> blank ''R1''" "\<not> blank ''Ann''"
    by (simp_all add: blank_def trim_def is_whitespace_def)
  have "login_effects (login_handleSubmit (Inr \<lparr>success = True, result_message = ''ok''\<rparr>)
        \<lparr>user = \<lparr>rollNumber = ''R1'', name = ''Ann''\<rparr>, login_isLoading = False,
         login_error = None, login_effects = []\<rparr>)
      = [CallCreateUser \<lparr>rollNumber = ''R1'', name = ''Ann''\<rparr>,
         LoginSuccess \<lparr>rollNumber = ''R1'', name = ''Ann''\<rparr>]"
    by (simp add: login_handleSubmit_def Let_def b [unfolded blank_def])
  with b login_blank_issues_no_call [of "\<lparr>user = \<lparr>rollNumber = ''  '', name = ''Ann''\<rparr>,
      login_isLoading = False, login_error = None, login_effects = []\<rparr>"
      "Inr \<lparr>success = True, result_message = ''ok''\<rparr>"]
  show ?thesis by simp
qed

end
